theory Spec2Isabelle
  imports Main "HOL-Library.Sublist" "HOL-Library.AList"
begin

section \<open>Python strings\<close>

text \<open>
  A Python \<open>str\<close> is modelled as a \<open>string\<close>, one \<open>char\<close> per code point; the
  model covers the code points 0 to 255. Python integers are \<open>int\<close>.
\<close>

datatype error =
  IndexError | ValueError | KeyError | OrthoGroupException | SystemExit | IOError

definition is_space :: "char \<Rightarrow> bool" where
  \<comment> \<open>\<open>str.isspace\<close> on the code points below 256\<close>
  "is_space c =
     (of_char c \<in> {9, 10, 11, 12, 13, 28, 29, 30, 31, 32, 133, 160 :: nat})"

definition strip :: "string \<Rightarrow> string" where
  \<comment> \<open>\<open>s.strip()\<close>\<close>
  "strip s = rev (dropWhile is_space (rev (dropWhile is_space s)))"

fun split_ws_from :: "string \<Rightarrow> string \<Rightarrow> string list" where
  \<comment> \<open>the scan of \<open>s.split()\<close>; the first argument is the token being read\<close>
  "split_ws_from cur [] = (if cur = [] then [] else [cur])"
| "split_ws_from cur (c # s) =
     (if is_space c
      then (if cur = [] then split_ws_from [] s else cur # split_ws_from [] s)
      else split_ws_from (cur @ [c]) s)"

definition split_ws :: "string \<Rightarrow> string list" where
  \<comment> \<open>\<open>s.split()\<close>: the maximal runs of non-whitespace characters\<close>
  "split_ws s = split_ws_from [] s"

fun split_char :: "char \<Rightarrow> string \<Rightarrow> string list" where
  \<comment> \<open>\<open>s.split(sep)\<close> for a separator of one character; never the empty list\<close>
  "split_char sep [] = [[]]"
| "split_char sep (c # s) =
     (if c = sep then [] # split_char sep s
      else (case split_char sep s of
              [] \<Rightarrow> [[c]]
            | f # fs \<Rightarrow> (c # f) # fs))"

definition hex_digit :: "nat \<Rightarrow> char" where
  "hex_digit n = ''0123456789abcdef'' ! (n mod 16)"

definition repr_char :: "char \<Rightarrow> char \<Rightarrow> string" where
  \<comment> \<open>one character of \<open>repr(s)\<close>, for the chosen quote\<close>
  "repr_char quote c =
     (let n = of_char c :: nat in
      if c = quote \<or> c = CHR 0x5C then [CHR 0x5C, c]
      else if c = CHR 0x09 then [CHR 0x5C, CHR ''t'']
      else if c = CHR 0x0A then [CHR 0x5C, CHR ''n'']
      else if c = CHR 0x0D then [CHR 0x5C, CHR ''r'']
      else if n < 32 \<or> n = 127 \<or> (128 \<le> n \<and> n \<le> 160) \<or> n = 173
        then [CHR 0x5C, CHR ''x'', hex_digit (n div 16), hex_digit n]
      else [c])"

definition repr_str :: "string \<Rightarrow> string" where
  \<comment> \<open>\<open>repr(s)\<close>: double quotes only when \<open>s\<close> has a single quote and no double quote\<close>
  "repr_str s =
     (let quote = (if CHR 0x27 \<in> set s \<and> CHR 0x22 \<notin> set s then CHR 0x22 else CHR 0x27)
      in quote # concat (map (repr_char quote) s) @ [quote])"

fun join :: "string \<Rightarrow> string list \<Rightarrow> string" where
  \<comment> \<open>\<open>sep.join(xs)\<close>\<close>
  "join sep [] = []"
| "join sep [x] = x"
| "join sep (x # y # xs) = x @ sep @ join sep (y # xs)"

definition str_list :: "string list \<Rightarrow> string" where
  \<comment> \<open>\<open>str(xs)\<close> of a list of strings\<close>
  "str_list xs = ''['' @ join '', '' (map repr_str xs) @ '']''"

function count_from :: "string \<Rightarrow> string \<Rightarrow> nat" where
  \<comment> \<open>non-overlapping occurrences of a non-empty \<open>sub\<close>, scanning left to right\<close>
  "count_from sub [] = 0"
| "count_from sub (c # s) =
     (if prefix sub (c # s) then Suc (count_from sub (drop (length sub - 1) s))
      else count_from sub s)"
  by pat_completeness auto
termination
  by (relation "measure (\<lambda>(sub, s). length s)") auto

definition count_str :: "string \<Rightarrow> string \<Rightarrow> nat" where
  \<comment> \<open>\<open>s.count(sub)\<close>; the empty \<open>sub\<close> occurs \<open>len(s) + 1\<close> times\<close>
  "count_str s sub = (if sub = [] then length s + 1 else count_from sub s)"

section \<open>Cluster\<close>

type_synonym dict = "(string \<times> int) list"

record cluster =
  name :: string
  sequences :: "string list"
  species_frequency :: dict
  gene_compliant :: "bool option"
  species_compliant :: "bool option"

definition species_code :: "string \<Rightarrow> string" where
  \<comment> \<open>\<open>field.split("|")[0]\<close>\<close>
  "species_code field = hd (split_char CHR ''|'' field)"

definition dict_of :: "(string \<times> int) list \<Rightarrow> dict" where
  \<comment> \<open>\<open>dict(pairs)\<close>: insertion order, a repeated key keeps its place and takes the
      later value\<close>
  "dict_of pairs = fold (\<lambda>(k, v) d. AList.update k v d) pairs []"

definition parse_string ::
  "(string list \<Rightarrow> string list) \<Rightarrow> string \<Rightarrow> error + string \<times> string list \<times> dict" where
  \<comment> \<open>\<open>Cluster.parse_string\<close>: the name, the sequence list and the species frequency.
      \<open>iter_set xs\<close> is the order in which \<open>set(xs)\<close> is iterated, which Python leaves
      open.\<close>
  "parse_string iter_set cluster_string =
     (let fields = split_char CHR '':'' cluster_string in
      if length fields < 2 then Inl IndexError
      else
        let nm = strip (fields ! 0);
            seqs = split_ws (strip (fields ! 1));
            species_list = iter_set (map species_code seqs)
        in Inr (nm, seqs,
                dict_of (zip species_list
                  (map (\<lambda>species. int (count_str (str_list seqs) species)) species_list))))"

definition Cluster :: "(string list \<Rightarrow> string list) \<Rightarrow> string \<Rightarrow> error + cluster" where
  \<comment> \<open>\<open>Cluster.__init__\<close>\<close>
  "Cluster iter_set line_string =
     (case parse_string iter_set line_string of
        Inl e \<Rightarrow> Inl e
      | Inr (nm, seqs, freq) \<Rightarrow>
          Inr \<lparr> name = nm, sequences = seqs, species_frequency = freq,
                gene_compliant = None, species_compliant = None \<rparr>)"

definition first_seen :: "string list \<Rightarrow> string list" where
  \<comment> \<open>one possible iteration order of \<open>set(xs)\<close>: by first occurrence\<close>
  "first_seen xs = rev (remdups (rev xs))"

definition apply_filter :: "int \<Rightarrow> int \<Rightarrow> cluster \<Rightarrow> (error + unit) \<times> cluster" where
  \<comment> \<open>\<open>Cluster.apply_filter\<close>: the outcome and the cluster as the call leaves it\<close>
  "apply_filter gene_threshold species_threshold self =
     (let self1 = self\<lparr>species_compliant :=
                    Some (species_threshold \<le> int (length (species_frequency self)))\<rparr>
      in case map snd (species_frequency self1) of
           [] \<Rightarrow> (Inl ValueError, self1)
         | v # vs \<Rightarrow>
             (Inr (), self1\<lparr>gene_compliant := Some (fold max vs v \<le> gene_threshold)\<rparr>))"

definition both_compliant :: "cluster \<Rightarrow> bool" where
  \<comment> \<open>the test \<open>cluster.species_compliant and cluster.gene_compliant\<close>: an unset flag
      (\<open>None\<close>) counts as false\<close>
  "both_compliant c = (species_compliant c = Some True \<and> gene_compliant c = Some True)"

section \<open>Group\<close>

text \<open>
  The Cluster objects of a Group live in its \<open>heap\<close>; \<open>groups\<close> and \<open>filtered_groups\<close>
  hold references (addresses in the heap), so a flag set on a cluster is seen through
  both lists. A file system is a function from a path to the lines that iterating over
  the opened file yields, \<open>None\<close> when the file cannot be opened.
\<close>

type_synonym file_system = "string \<Rightarrow> string list option"

record group =
  gene_threshold :: "int option"
  species_threshold :: "int option"
  group_name :: string
  prefix :: string
  heap :: "cluster list"
  groups :: "nat list"
  filtered_groups :: "nat list"
  name_Group :: string
  species_list :: "string list"

definition add_species :: "string list \<Rightarrow> string list \<Rightarrow> string list" where
  \<comment> \<open>appends to the species list the species it does not hold yet\<close>
  "add_species cluster_species spl =
     fold (\<lambda>species l. if species \<in> set l then l else l @ [species]) cluster_species spl"

definition parse_line ::
  "(string list \<Rightarrow> string list) \<Rightarrow> string \<Rightarrow> group \<Rightarrow> error + group" where
  \<comment> \<open>the body of the loop of \<open>Group.__parse_groups\<close>; a threshold that is \<open>None\<close> or
      \<open>0\<close> is falsy\<close>
  "parse_line iter_set line g =
     (case Cluster iter_set line of
        Inl e \<Rightarrow> Inl e
      | Inr cluster_object \<Rightarrow>
          let a = length (heap g);
              g1 = g\<lparr>heap := heap g @ [cluster_object],
                     groups := groups g @ [a],
                     species_list :=
                       add_species (map fst (species_frequency cluster_object)) (species_list g)\<rparr>
          in (case (species_threshold g1, gene_threshold g1) of
                (Some st, Some gt) \<Rightarrow>
                  if st \<noteq> 0 \<and> gt \<noteq> 0 then
                    (case apply_filter gt st cluster_object of
                       (Inl e, c') \<Rightarrow> Inl e
                     | (Inr u, c') \<Rightarrow>
                         let g2 = g1\<lparr>heap := (heap g1)[a := c']\<rparr>
                         in Inr (if both_compliant c'
                                 then g2\<lparr>filtered_groups := filtered_groups g2 @ [a]\<rparr>
                                 else g2))
                  else Inr g1
              | _ \<Rightarrow> Inr g1))"

fun parse_lines ::
  "(string list \<Rightarrow> string list) \<Rightarrow> string list \<Rightarrow> group \<Rightarrow> error + group" where
  "parse_lines iter_set [] g = Inr g"
| "parse_lines iter_set (line # rest) g =
     (case parse_line iter_set line g of
        Inl e \<Rightarrow> Inl e
      | Inr g' \<Rightarrow> parse_lines iter_set rest g')"

definition parse_groups ::
  "(string list \<Rightarrow> string list) \<Rightarrow> file_system \<Rightarrow> string \<Rightarrow> group \<Rightarrow> error + group" where
  \<comment> \<open>\<open>Group.__parse_groups\<close>\<close>
  "parse_groups iter_set fs groups_file g =
     (case fs groups_file of
        None \<Rightarrow> Inl IOError
      | Some lines \<Rightarrow>
          parse_lines iter_set lines (g\<lparr>name_Group := groups_file, species_list := []\<rparr>))"

definition Group ::
  "(string list \<Rightarrow> string list) \<Rightarrow> file_system \<Rightarrow> string \<Rightarrow> int option \<Rightarrow> int option \<Rightarrow>
   string \<Rightarrow> error + group" where
  \<comment> \<open>\<open>Group.__init__\<close>; an absent threshold is \<open>None\<close>\<close>
  "Group iter_set fs groups_file gt st project_prefix =
     parse_groups iter_set fs groups_file
       \<lparr> gene_threshold = gt, species_threshold = st, group_name = groups_file,
         prefix = project_prefix, heap = [], groups = [], filtered_groups = [],
         name_Group = [], species_list = [] \<rparr>"

definition update_filtered_group :: "group \<Rightarrow> group" where
  \<comment> \<open>\<open>Group.update_filtered_group\<close>\<close>
  "update_filtered_group g =
     g\<lparr>filtered_groups :=
         fold (\<lambda>a updated_group.
                 if both_compliant (heap g ! a) then updated_group @ [a] else updated_group)
              (groups g) []\<rparr>"

definition apply_filter_at :: "int \<Rightarrow> int \<Rightarrow> nat \<Rightarrow> group \<Rightarrow> (error + unit) \<times> group" where
  \<comment> \<open>a caller's \<open>cluster.apply_filter(gt, st)\<close> on the cluster at address \<open>a\<close>\<close>
  "apply_filter_at gt st a g =
     (case apply_filter gt st (heap g ! a) of
        (r, c') \<Rightarrow> (r, g\<lparr>heap := (heap g)[a := c']\<rparr>))"

definition export_line :: "cluster \<Rightarrow> string" where
  \<comment> \<open>\<open>"%s: %s\n" % (cluster.name, " ".join(cluster.sequences))\<close>\<close>
  "export_line c = name c @ '': '' @ join '' '' (sequences c) @ [CHR 0x0A]"

definition export_step ::
  "cluster \<Rightarrow> string list \<times> int \<times> int \<times> int \<Rightarrow> string list \<times> int \<times> int \<times> int" where
  \<comment> \<open>one round of the loop of \<open>export_filtered_group\<close>: the lines written so far and
      the counters \<open>sp_compliant\<close>, \<open>gene_compliant\<close>, \<open>final_orthologs\<close>\<close>
  "export_step c st =
     (case st of (out, sp, gn, fin) \<Rightarrow>
        (if both_compliant c then out @ [export_line c] else out,
         if species_compliant c = Some True then sp + 1 else sp,
         if gene_compliant c = Some True then gn + 1 else gn,
         if both_compliant c then fin + 1 else fin))"

definition export_filtered_group ::
  "bool \<Rightarrow> group \<Rightarrow> (error + string list \<times> (int \<times> int \<times> int \<times> int) option) \<times> group" where
  \<comment> \<open>\<open>Group.export_filtered_group\<close>: the strings written to the output file and the
      returned statistics, or the error; and the Group as the call leaves it\<close>
  "export_filtered_group get_stats g =
     (if filtered_groups g \<noteq> [] then
        (case fold (\<lambda>a. export_step (heap g ! a)) (filtered_groups g) ([], 0, 0, 0) of
           (out, sp, gn, fin) \<Rightarrow>
             (Inr (out, if get_stats then Some (int (length (groups g)), sp, gn, fin) else None),
              g))
      else (Inl OrthoGroupException, g))"

fun str_nat :: "nat \<Rightarrow> string" where
  "str_nat n =
     (if n < 10 then [''0123456789'' ! n]
      else str_nat (n div 10) @ [''0123456789'' ! (n mod 10)])"

declare str_nat.simps [simp del]

definition str_int :: "int \<Rightarrow> string" where
  \<comment> \<open>\<open>str(i)\<close> of an integer\<close>
  "str_int i = (if i < 0 then CHR ''-'' # str_nat (nat (- i)) else str_nat (nat i))"

fun count_species :: "dict \<Rightarrow> string list \<Rightarrow> dict \<Rightarrow> error + dict" where
  \<comment> \<open>the inner loop of \<open>paralog_per_species_statistic\<close> over the keys of
      \<open>paralog_count\<close>; \<open>cluster.species_frequency[species]\<close> raises KeyError for a
      species the cluster does not have\<close>
  "count_species freq [] paralog_count = Inr paralog_count"
| "count_species freq (species # rest) paralog_count =
     (case map_of freq species of
        None \<Rightarrow> Inl KeyError
      | Some f \<Rightarrow>
          count_species freq rest
            (if 1 < f then AList.map_entry species (\<lambda>v. v + 1) paralog_count
             else paralog_count))"

fun count_paralogs :: "cluster list \<Rightarrow> dict \<Rightarrow> error + dict" where
  \<comment> \<open>the outer loop, over the clusters\<close>
  "count_paralogs [] paralog_count = Inr paralog_count"
| "count_paralogs (c # rest) paralog_count =
     (case count_species (species_frequency c) (map fst paralog_count) paralog_count of
        Inl e \<Rightarrow> Inl e
      | Inr paralog_count' \<Rightarrow> count_paralogs rest paralog_count')"

definition paralog_table :: "dict \<Rightarrow> string list" where
  \<comment> \<open>the strings written to the CSV file\<close>
  "paralog_table paralog_count =
     (''Species; Clusters with paralogs'' @ [CHR 0x0A]) #
     map (\<lambda>(species, val). species @ ''; '' @ str_int val @ [CHR 0x0A]) paralog_count"

definition paralog_per_species_statistic :: "bool \<Rightarrow> group \<Rightarrow> error + string list" where
  \<comment> \<open>\<open>Group.paralog_per_species_statistic\<close>: the content written to the output file,
      which is opened only after the counting\<close>
  "paralog_per_species_statistic filt g =
     (let gs = (if filt then filtered_groups g else groups g);
          paralog_count = dict_of (map (\<lambda>species. (species, 0)) (species_list g))
      in case count_paralogs (map (\<lambda>a. heap g ! a) gs) paralog_count of
           Inl e \<Rightarrow> Inl e
         | Inr paralog_count' \<Rightarrow> Inr (paralog_table paralog_count'))"

datatype database = DbStr string | DbDict "(string \<times> string) list" | DbOther

record fasta_effects =
  printed :: "string list list list"
  files :: "(string \<times> string list) list"

definition path_join :: "string \<Rightarrow> string \<Rightarrow> string" where
  \<comment> \<open>\<open>os.path.join(a, b)\<close> on a POSIX system\<close>
  "path_join a b =
     (if b \<noteq> [] \<and> hd b = CHR ''/'' then b
      else if a = [] \<or> last a = CHR ''/'' then a @ b
      else a @ ''/'' @ b)"

fun write_sequences ::
  "(string \<times> string) list \<Rightarrow> string list \<Rightarrow> string list \<Rightarrow> (error + unit) \<times> string list" where
  \<comment> \<open>the loop over \<open>cluster.sequences\<close>: the strings written to the cluster's file; a
      sequence identifier the database does not have raises KeyError\<close>
  "write_sequences db_aln [] out = (Inr (), out)"
| "write_sequences db_aln (sequence_id # rest) out =
     (case map_of db_aln sequence_id of
        None \<Rightarrow> (Inl KeyError, out)
      | Some seq \<Rightarrow>
          write_sequences db_aln rest
            (out @ [''>'' @ species_code sequence_id @ [CHR 0x0A] @ seq @ [CHR 0x0A]]))"

fun write_clusters ::
  "(string \<times> string) list \<Rightarrow> cluster list \<Rightarrow> (string \<times> string list) list \<Rightarrow>
   (error + unit) \<times> (string \<times> string list) list" where
  \<comment> \<open>the loop over the clusters: one file opened for each\<close>
  "write_clusters db_aln [] fls = (Inr (), fls)"
| "write_clusters db_aln (c # rest) fls =
     (case write_sequences db_aln (sequences c) [] of
        (Inl e, out) \<Rightarrow> (Inl e, fls @ [(path_join ''Orthologs'' (name c @ ''.fas''), out)])
      | (Inr u, out) \<Rightarrow>
          write_clusters db_aln rest (fls @ [(path_join ''Orthologs'' (name c @ ''.fas''), out)]))"

definition retrieve_fasta ::
  "(string \<Rightarrow> error + (string \<times> string) list) \<Rightarrow> database \<Rightarrow> bool \<Rightarrow> group \<Rightarrow>
   (error + unit) \<times> fasta_effects" where
  \<comment> \<open>\<open>Group.retrieve_fasta\<close>: the outcome, what was printed and the files opened with
      what was written to each, in order. \<open>alignment\<close> stands for
      \<open>Alignment(database).alignment\<close> of \<open>process.sequence\<close>. The directory
      \<open>Orthologs\<close> and failures of the operating system are not represented.\<close>
  "retrieve_fasta alignment db filt g =
     (let gs = (if filt then filtered_groups g else groups g);
          pr = (if filt then [map (\<lambda>a. sequences (heap g ! a)) (filtered_groups g)] else [])
      in case (case db of
                 DbStr path \<Rightarrow> alignment path
               | DbDict d \<Rightarrow> Inr d
               | DbOther \<Rightarrow> Inl OrthoGroupException) of
           Inl e \<Rightarrow> (Inl e, \<lparr> printed = pr, files = [] \<rparr>)
         | Inr db_aln \<Rightarrow>
             (case write_clusters db_aln (map (\<lambda>a. heap g ! a) gs) [] of
                (r, fls) \<Rightarrow> (r, \<lparr> printed = pr, files = fls \<rparr>)))"

section \<open>MultiGroups\<close>

record multigroups =
  gene_threshold_m :: "int option"
  species_threshold_m :: "int option"
  prefix_m :: string
  multiple_groups :: "group list"

fun make_groups ::
  "(string list \<Rightarrow> string list) \<Rightarrow> file_system \<Rightarrow> string list \<Rightarrow> multigroups \<Rightarrow>
   error + multigroups" where
  \<comment> \<open>the loop of \<open>MultiGroups.__init__\<close> over the group files\<close>
  "make_groups iter_set fs [] mg = Inr mg"
| "make_groups iter_set fs (group_file # rest) mg =
     (case Group iter_set fs group_file (gene_threshold_m mg) (species_threshold_m mg)
             ''MyGroups'' of
        Inl e \<Rightarrow> Inl e
      | Inr group_object \<Rightarrow>
          make_groups iter_set fs rest
            (mg\<lparr>multiple_groups := multiple_groups mg @ [group_object]\<rparr>))"

definition MultiGroups ::
  "(string list \<Rightarrow> string list) \<Rightarrow> file_system \<Rightarrow> string list option \<Rightarrow> int option \<Rightarrow>
   int option \<Rightarrow> string \<Rightarrow> error + multigroups" where
  \<comment> \<open>\<open>MultiGroups.__init__\<close>\<close>
  "MultiGroups iter_set fs groups_files gt st project_prefix =
     make_groups iter_set fs (case groups_files of None \<Rightarrow> [] | Some fl \<Rightarrow> fl)
       \<lparr> gene_threshold_m = gt, species_threshold_m = st, prefix_m = project_prefix,
         multiple_groups = [] \<rparr>"

definition add_group :: "group \<Rightarrow> multigroups \<Rightarrow> multigroups" where
  "add_group group_obj mg = mg\<lparr>multiple_groups := multiple_groups mg @ [group_obj]\<rparr>"

definition parse_groups' :: "group \<Rightarrow> string set list" where
  \<comment> \<open>the local function \<open>parse_groups\<close> of \<open>group_overlap\<close>\<close>
  "parse_groups' group_obj =
     fold (\<lambda>a storage. storage @ [set (sequences (heap group_obj ! a))]) (groups group_obj) []"

datatype pyvalue = PyNone | PyInt int

definition group_overlap :: "multigroups \<Rightarrow> (error + pyvalue) \<times> int list" where
  \<comment> \<open>\<open>MultiGroups.group_overlap\<close>: the value returned (the method has no return
      statement, so it returns \<open>None\<close>) or the error, and the integers printed\<close>
  "group_overlap mg =
     (if length (multiple_groups mg) \<noteq> 2 then (Inl SystemExit, [])
      else
        let group1 = multiple_groups mg ! 0;
            group2 = multiple_groups mg ! 1;
            group1_list = parse_groups' group1;
            group2_list = parse_groups' group2;
            counter = fold (\<lambda>i counter. if i \<in> set group2_list then counter + 1 else counter)
                        group1_list 0
        in (Inr PyNone, [counter]))"

section \<open>Specification notions and example inputs\<close>

definition copies :: "string list \<Rightarrow> string \<Rightarrow> int" where
  \<comment> \<open>the number of sequence identifiers that have the species code \<open>sp\<close>\<close>
  "copies seqs sp = int (length (filter (\<lambda>s. species_code s = sp) seqs))"

definition complies :: "int \<Rightarrow> int \<Rightarrow> cluster \<Rightarrow> bool" where
  \<comment> \<open>a cluster respects a gene threshold and a species threshold: its sequences are
      of at least \<open>stv\<close> species, and no species has more than \<open>gtv\<close> sequences\<close>
  "complies gtv stv c =
     (stv \<le> int (card (species_code ` set (sequences c))) \<and>
      (\<forall>sp \<in> species_code ` set (sequences c). copies (sequences c) sp \<le> gtv))"

definition accurate_table :: "cluster \<Rightarrow> bool" where
  \<comment> \<open>the frequency table of the cluster holds, for each species code of its sequences
      and for no other key, the number of sequences with that code\<close>
  "accurate_table c =
     (set (map fst (species_frequency c)) = species_code ` set (sequences c) \<and>
      (\<forall>kv \<in> set (species_frequency c). snd kv = copies (sequences c) (fst kv)))"

inductive reachable :: "group \<Rightarrow> bool" where
  \<comment> \<open>the Groups that a construction followed by any sequence of \<open>apply_filter\<close> calls
      on its clusters and of \<open>update_filtered_group\<close> calls leaves\<close>
  constructed:
    "Group iter_set fs groups_file gt st project_prefix = Inr g \<Longrightarrow> reachable g"
| filtered:
    "reachable g \<Longrightarrow> a \<in> set (groups g) \<Longrightarrow> reachable (snd (apply_filter_at gt st a g))"
| updated:
    "reachable g \<Longrightarrow> reachable (update_filtered_group g)"

definition example_fs :: file_system where
  \<comment> \<open>a file system with two groups files of two lines each\<close>
  "example_fs path =
     (if path = ''groups.txt''
      then Some [''G1: sp1|a sp1|b'' @ [CHR 0x0A], ''G2: sp2|c'' @ [CHR 0x0A]]
      else if path = ''other.txt''
      then Some [''H1: sp1|b sp1|a sp1|a'' @ [CHR 0x0A], ''H2: sp3|d'' @ [CHR 0x0A]]
      else None)"

definition prefix_fs :: file_system where
  \<comment> \<open>a file system with one groups file of one line, in which one species code is a
      prefix of another\<close>
  "prefix_fs path =
     (if path = ''prefix.txt'' then Some [''G1: sp1|a sp10|b'' @ [CHR 0x0A]] else None)"

definition unfiltered_group :: group where
  \<comment> \<open>the Group of \<open>groups.txt\<close> constructed without thresholds\<close>
  "unfiltered_group =
     \<lparr> gene_threshold = None, species_threshold = None, group_name = ''groups.txt'',
       prefix = ''MyGroups'',
       heap = [\<lparr> name = ''G1'', sequences = [''sp1|a'', ''sp1|b''],
                 species_frequency = [(''sp1'', 2)],
                 gene_compliant = None, species_compliant = None \<rparr>,
               \<lparr> name = ''G2'', sequences = [''sp2|c''],
                 species_frequency = [(''sp2'', 1)],
                 gene_compliant = None, species_compliant = None \<rparr>],
       groups = [0, 1], filtered_groups = [], name_Group = ''groups.txt'',
       species_list = [''sp1'', ''sp2''] \<rparr>"

definition example_group :: group where
  \<comment> \<open>the Group of \<open>groups.txt\<close> constructed with both thresholds 1\<close>
  "example_group =
     \<lparr> gene_threshold = Some 1, species_threshold = Some 1, group_name = ''groups.txt'',
       prefix = ''MyGroups'',
       heap = [\<lparr> name = ''G1'', sequences = [''sp1|a'', ''sp1|b''],
                 species_frequency = [(''sp1'', 2)],
                 gene_compliant = Some False, species_compliant = Some True \<rparr>,
               \<lparr> name = ''G2'', sequences = [''sp2|c''],
                 species_frequency = [(''sp2'', 1)],
                 gene_compliant = Some True, species_compliant = Some True \<rparr>],
       groups = [0, 1], filtered_groups = [1], name_Group = ''groups.txt'',
       species_list = [''sp1'', ''sp2''] \<rparr>"

definition other_group :: group where
  \<comment> \<open>the Group of \<open>other.txt\<close> constructed without thresholds\<close>
  "other_group =
     \<lparr> gene_threshold = None, species_threshold = None, group_name = ''other.txt'',
       prefix = ''MyGroups'',
       heap = [\<lparr> name = ''H1'', sequences = [''sp1|b'', ''sp1|a'', ''sp1|a''],
                 species_frequency = [(''sp1'', 3)],
                 gene_compliant = None, species_compliant = None \<rparr>,
               \<lparr> name = ''H2'', sequences = [''sp3|d''],
                 species_frequency = [(''sp3'', 1)],
                 gene_compliant = None, species_compliant = None \<rparr>],
       groups = [0, 1], filtered_groups = [], name_Group = ''other.txt'',
       species_list = [''sp1'', ''sp3''] \<rparr>"

definition example_multigroups :: "group list \<Rightarrow> multigroups" where
  \<comment> \<open>a MultiGroups without thresholds that holds the given Groups\<close>
  "example_multigroups gs =
     \<lparr> gene_threshold_m = None, species_threshold_m = None, prefix_m = ''MyGroups'',
       multiple_groups = gs \<rparr>"

section \<open>Properties of the string functions\<close>

lemma split_char_not_Nil: "split_char sep s \<noteq> []"
  by (induction s) (auto split: list.splits)

lemma split_char_sep: "sep \<notin> set a \<Longrightarrow> split_char sep (a @ sep # rest) = a # split_char sep rest"
  by (induction a) (auto split: list.splits)

lemma split_char_no_sep: "sep \<notin> set a \<Longrightarrow> split_char sep a = [a]"
  by (induction a) auto

lemma hd_split_char: "hd (split_char sep s) = takeWhile (\<lambda>c. c \<noteq> sep) s"
  by (induction s) (auto split: list.splits simp: split_char_not_Nil)

lemma length_split_char: "(length (split_char sep s) < 2) = (sep \<notin> set s)"
proof (cases "sep \<in> set s")
  case True
  then obtain a rest where "s = a @ sep # rest" and "sep \<notin> set a"
    by (meson split_list_first)
  then have "split_char sep s = a # split_char sep rest"
    by (simp add: split_char_sep)
  then show ?thesis
    using True split_char_not_Nil[of sep rest] by (cases "split_char sep rest") auto
next
  case False
  then show ?thesis by (simp add: split_char_no_sep)
qed

lemma split_ws_from_spaces:
  "\<forall>c\<in>set w. is_space c \<Longrightarrow> split_ws_from cur w = (if cur = [] then [] else [cur])"
  by (induction w arbitrary: cur) auto

lemma split_ws_from_trailing:
  "\<forall>c\<in>set w. is_space c \<Longrightarrow> split_ws_from cur (t @ w) = split_ws_from cur t"
  by (induction t arbitrary: cur) (auto simp: split_ws_from_spaces)

lemma split_ws_from_leading: "split_ws_from [] (dropWhile is_space s) = split_ws_from [] s"
  by (induction s) auto

lemma split_ws_strip: "split_ws (strip s) = split_ws s"
proof -
  let ?t = "dropWhile is_space s"
  have "?t = rev (dropWhile is_space (rev ?t)) @ rev (takeWhile is_space (rev ?t))"
    by (metis rev_append rev_rev_ident takeWhile_dropWhile_id)
  moreover have "\<forall>c\<in>set (rev (takeWhile is_space (rev ?t))). is_space c"
    by (auto dest: set_takeWhileD)
  ultimately have "split_ws_from [] ?t = split_ws_from [] (rev (dropWhile is_space (rev ?t)))"
    by (metis split_ws_from_trailing)
  then show ?thesis by (simp add: split_ws_def strip_def split_ws_from_leading)
qed


section \<open>Properties of the loops\<close>

lemma fold_append_if:
  "fold (\<lambda>a acc. if P a then acc @ [f a] else acc) xs ys = ys @ map f (filter P xs)"
  by (induction xs arbitrary: ys) auto

lemma fold_append_map: "fold (\<lambda>a acc. acc @ [f a]) xs ys = ys @ map f xs"
  by (induction xs arbitrary: ys) auto

lemma fold_count_if:
  "fold (\<lambda>a (n::int). if P a then n + 1 else n) xs k = k + int (length (filter P xs))"
  by (induction xs arbitrary: k) auto

lemma fold_filter:
  "fold (\<lambda>a acc. if P a then acc @ [a] else acc) xs ys = ys @ filter P xs"
  by (induction xs arbitrary: ys) auto

lemma export_fold:
  "fold (\<lambda>a. export_step (h ! a)) as (out, sp, gn, fin) =
     (out @ map export_line (filter both_compliant (map (\<lambda>a. h ! a) as)),
      sp + int (length (filter (\<lambda>a. species_compliant (h ! a) = Some True) as)),
      gn + int (length (filter (\<lambda>a. gene_compliant (h ! a) = Some True) as)),
      fin + int (length (filter (\<lambda>a. both_compliant (h ! a)) as)))"
  by (induction as arbitrary: out sp gn fin) (auto simp: export_step_def)

lemma parse_groups'_map:
  "parse_groups' g = map (\<lambda>a. set (sequences (heap g ! a))) (groups g)"
  by (simp add: parse_groups'_def fold_append_map)

lemma group_overlap_two:
  "multiple_groups mg = [g1, g2] \<Longrightarrow>
   group_overlap mg =
     (Inr PyNone,
      [int (length (filter (\<lambda>i. i \<in> set (parse_groups' g2)) (parse_groups' g1)))])"
  by (simp add: group_overlap_def fold_count_if Let_def)

lemma fold_max_le: "(fold max vs v \<le> (k::int)) = (v \<le> k \<and> (\<forall>x\<in>set vs. x \<le> k))"
  by (induction vs arbitrary: v) auto

lemma Cluster_flags:
  "Cluster iter_set line = Inr c \<Longrightarrow> species_compliant c = None \<and> gene_compliant c = None"
  by (auto simp: Cluster_def split: sum.splits prod.splits)

lemma distinct_dict_of: "distinct (map fst (dict_of ps))"
proof -
  have "distinct (map fst d) \<Longrightarrow>
        distinct (map fst (fold (\<lambda>(k, v) d. AList.update k v d) ps d))" for d
    by (induction ps arbitrary: d) (auto simp: distinct_update)
  then show ?thesis by (simp add: dict_of_def)
qed

lemma Cluster_table:
  "Cluster iter_set line = Inr c \<Longrightarrow> distinct (map fst (species_frequency c))"
  by (auto simp: Cluster_def parse_string_def Let_def distinct_dict_of
           split: sum.splits if_splits)

lemma apply_filter_flags:
  assumes "apply_filter gtv stv c = (Inr u, c')"
  shows "species_frequency c' = species_frequency c \<and>
         species_compliant c' = Some (stv \<le> int (length (species_frequency c))) \<and>
         gene_compliant c' = Some (\<forall>v \<in> snd ` set (species_frequency c). v \<le> gtv)"
proof (cases "map snd (species_frequency c)")
  case Nil
  with assms show ?thesis by (simp add: apply_filter_def)
next
  case (Cons v vs)
  have "snd ` set (species_frequency c) = set (v # vs)"
    using Cons by (metis set_map)
  then have "(\<forall>x \<in> snd ` set (species_frequency c). x \<le> gtv) = (fold max vs v \<le> gtv)"
    by (simp add: fold_max_le)
  with assms Cons show ?thesis by (auto simp: apply_filter_def)
qed

lemma parse_line_filtering:
  assumes gt: "gene_threshold g = Some gtv" and st: "species_threshold g = Some stv"
    and nz: "gtv \<noteq> 0" "stv \<noteq> 0"
    and p: "parse_line iter_set line g = Inr g'"
  shows "\<exists>c. heap g' = heap g @ [c] \<and> groups g' = groups g @ [length (heap g)] \<and>
             gene_threshold g' = gene_threshold g \<and> species_threshold g' = species_threshold g \<and>
             species_compliant c = Some (stv \<le> int (length (species_frequency c))) \<and>
             gene_compliant c = Some (\<forall>v \<in> snd ` set (species_frequency c). v \<le> gtv) \<and>
             distinct (map fst (species_frequency c)) \<and>
             filtered_groups g' =
               (if both_compliant c then filtered_groups g @ [length (heap g)]
                else filtered_groups g)"
proof (cases "Cluster iter_set line")
  case (Inl e)
  with p show ?thesis by (simp add: parse_line_def)
next
  case (Inr c0)
  obtain r c' where a: "apply_filter gtv stv c0 = (r, c')" by (cases "apply_filter gtv stv c0")
  show ?thesis
  proof (cases r)
    case (Inl e)
    with p Inr a gt st nz show ?thesis by (simp add: parse_line_def Let_def)
  next
    case r: (Inr u)
    have f: "species_frequency c' = species_frequency c0"
      "species_compliant c' = Some (stv \<le> int (length (species_frequency c0)))"
      "gene_compliant c' = Some (\<forall>v \<in> snd ` set (species_frequency c0). v \<le> gtv)"
      using apply_filter_flags[of gtv stv c0 u c'] a r by simp_all
    have "heap g' = heap g @ [c'] \<and> groups g' = groups g @ [length (heap g)] \<and>
          gene_threshold g' = gene_threshold g \<and> species_threshold g' = species_threshold g \<and>
          filtered_groups g' =
            (if both_compliant c' then filtered_groups g @ [length (heap g)]
             else filtered_groups g)"
      using p Inr a r gt st nz by (auto simp: parse_line_def Let_def split: if_splits)
    then show ?thesis using f Cluster_table[OF Inr] by (intro exI[of _ c']) simp
  qed
qed

lemma parse_line_not_filtering:
  assumes off: "gene_threshold g = None \<or> species_threshold g = None \<or>
           gene_threshold g = Some 0 \<or> species_threshold g = Some 0"
    and p: "parse_line iter_set line g = Inr g'"
  shows "\<exists>c. heap g' = heap g @ [c] \<and> groups g' = groups g @ [length (heap g)] \<and>
             gene_threshold g' = gene_threshold g \<and> species_threshold g' = species_threshold g \<and>
             species_compliant c = None \<and> gene_compliant c = None \<and>
             distinct (map fst (species_frequency c)) \<and>
             filtered_groups g' = filtered_groups g"
proof (cases "Cluster iter_set line")
  case (Inl e)
  with p show ?thesis by (simp add: parse_line_def)
next
  case (Inr c0)
  have "heap g' = heap g @ [c0] \<and> groups g' = groups g @ [length (heap g)] \<and>
        gene_threshold g' = gene_threshold g \<and> species_threshold g' = species_threshold g \<and>
        filtered_groups g' = filtered_groups g"
    using p Inr off by (auto simp: parse_line_def Let_def split: option.splits if_splits)
  then show ?thesis using Cluster_flags[OF Inr] Cluster_table[OF Inr]
    by (intro exI[of _ c0]) simp
qed

lemma parse_line_step:
  assumes p: "parse_line iter_set line g = Inr g'"
  shows "\<exists>c. heap g' = heap g @ [c] \<and> groups g' = groups g @ [length (heap g)] \<and>
             gene_threshold g' = gene_threshold g \<and> species_threshold g' = species_threshold g \<and>
             distinct (map fst (species_frequency c)) \<and>
             filtered_groups g' =
               (if both_compliant c then filtered_groups g @ [length (heap g)]
                else filtered_groups g)"
proof (cases "gene_threshold g = None \<or> species_threshold g = None \<or>
           gene_threshold g = Some 0 \<or> species_threshold g = Some 0")
  case True
  from parse_line_not_filtering[OF True p] show ?thesis
    by (auto simp: both_compliant_def)
next
  case False
  then obtain gtv stv where "gene_threshold g = Some gtv" "species_threshold g = Some stv"
    "gtv \<noteq> 0" "stv \<noteq> 0" by auto
  from parse_line_filtering[OF this p] show ?thesis by blast
qed

lemma parse_lines_invariant:
  assumes step: "\<And>line g g'. I g \<Longrightarrow> parse_line iter_set line g = Inr g' \<Longrightarrow> I g'"
  shows "I g \<Longrightarrow> parse_lines iter_set lines g = Inr g' \<Longrightarrow> I g'"
proof (induction lines arbitrary: g)
  case Nil
  then show ?case by simp
next
  case (Cons line rest)
  then show ?case by (auto split: sum.splits dest: step)
qed

lemma filter_heap_snoc:
  "filter (\<lambda>a. P ((h @ [c]) ! a)) [0..<length h] = filter (\<lambda>a. P (h ! a)) [0..<length h]"
  by (rule filter_cong) (simp_all add: nth_append)

lemma parse_line_exact:
  assumes i: "groups g = [0..<length (heap g)] \<and>
              filtered_groups g = filter (\<lambda>a. both_compliant (heap g ! a)) (groups g)"
    and p: "parse_line iter_set line g = Inr g'"
  shows "groups g' = [0..<length (heap g')] \<and>
         filtered_groups g' = filter (\<lambda>a. both_compliant (heap g' ! a)) (groups g')"
proof -
  from parse_line_step[OF p] obtain c where
    h: "heap g' = heap g @ [c]" and gr: "groups g' = groups g @ [length (heap g)]" and
    f: "filtered_groups g' =
          (if both_compliant c then filtered_groups g @ [length (heap g)] else filtered_groups g)"
    by blast
  have "groups g' = [0..<length (heap g')]" using i h gr by simp
  moreover have "filtered_groups g' = filter (\<lambda>a. both_compliant (heap g' ! a)) (groups g')"
    using i f by (simp add: h gr filter_heap_snoc)
  ultimately show ?thesis ..
qed

lemma Group_start:
  assumes "Group iter_set fs groups_file gt st project_prefix = Inr g"
  shows "\<exists>lines g0. parse_lines iter_set lines g0 = Inr g \<and> heap g0 = [] \<and> groups g0 = [] \<and>
           filtered_groups g0 = [] \<and> gene_threshold g0 = gt \<and> species_threshold g0 = st"
proof (cases "fs groups_file")
  case None
  with assms show ?thesis by (simp add: Group_def parse_groups_def)
next
  case (Some lines)
  let ?g0 = "\<lparr> gene_threshold = gt, species_threshold = st, group_name = groups_file,
               prefix = project_prefix, heap = [], groups = [], filtered_groups = [],
               name_Group = groups_file, species_list = [] \<rparr>"
  have "parse_lines iter_set lines ?g0 = Inr g"
    using assms Some by (simp add: Group_def parse_groups_def)
  then show ?thesis by (intro exI[of _ lines] exI[of _ ?g0]) simp
qed

lemma Group_exact:
  assumes "Group iter_set fs groups_file gt st project_prefix = Inr g"
  shows "groups g = [0..<length (heap g)] \<and>
         filtered_groups g = filter (\<lambda>a. both_compliant (heap g ! a)) (groups g)"
proof -
  from Group_start[OF assms] obtain lines g0 where
    p: "parse_lines iter_set lines g0 = Inr g" and
    z: "heap g0 = []" "groups g0 = []" "filtered_groups g0 = []"
    by blast
  have "groups g0 = [0..<length (heap g0)] \<and>
        filtered_groups g0 = filter (\<lambda>a. both_compliant (heap g0 ! a)) (groups g0)"
    using z by simp
  with p show ?thesis
    using parse_line_exact
      parse_lines_invariant[where I = "\<lambda>g. groups g = [0..<length (heap g)] \<and>
        filtered_groups g = filter (\<lambda>a. both_compliant (heap g ! a)) (groups g)"
        and iter_set = iter_set and g = g0 and lines = lines and g' = g]
    by blast
qed

lemma Group_filtering:
  assumes c: "Group iter_set fs groups_file (Some gtv) (Some stv) project_prefix = Inr g"
    and nz: "gtv \<noteq> 0" "stv \<noteq> 0"
  shows "\<forall>c \<in> set (heap g).
           species_compliant c = Some (stv \<le> int (length (species_frequency c))) \<and>
           gene_compliant c = Some (\<forall>v \<in> snd ` set (species_frequency c). v \<le> gtv)"
proof -
  let ?I = "\<lambda>g. gene_threshold g = Some gtv \<and> species_threshold g = Some stv \<and>
            (\<forall>c \<in> set (heap g).
               species_compliant c = Some (stv \<le> int (length (species_frequency c))) \<and>
               gene_compliant c = Some (\<forall>v \<in> snd ` set (species_frequency c). v \<le> gtv))"
  from Group_start[OF c] obtain lines g0 where
    p: "parse_lines iter_set lines g0 = Inr g" and
    z: "heap g0 = []" "gene_threshold g0 = Some gtv" "species_threshold g0 = Some stv"
    by blast
  have step: "?I g2" if "?I g1" and "parse_line iter_set line g1 = Inr g2" for line g1 g2
  proof -
    from that have "gene_threshold g1 = Some gtv" "species_threshold g1 = Some stv" by simp_all
    from parse_line_filtering[OF this nz that(2)] that(1) show ?thesis by auto
  qed
  have "?I g0" using z by simp
  then have "?I g"
    using p step parse_lines_invariant[where I = ?I and iter_set = iter_set and g = g0
      and lines = lines and g' = g]
    by blast
  then show ?thesis by simp
qed

lemma Group_not_filtering:
  assumes c: "Group iter_set fs groups_file gt st project_prefix = Inr g"
    and off: "gt = None \<or> st = None \<or> gt = Some 0 \<or> st = Some 0"
  shows "(\<forall>c \<in> set (heap g). species_compliant c = None \<and> gene_compliant c = None) \<and>
         filtered_groups g = []"
proof -
  let ?I = "\<lambda>g. (gene_threshold g = None \<or> species_threshold g = None \<or>
                 gene_threshold g = Some 0 \<or> species_threshold g = Some 0) \<and>
            (\<forall>c \<in> set (heap g). species_compliant c = None \<and> gene_compliant c = None) \<and>
            filtered_groups g = []"
  from Group_start[OF c] obtain lines g0 where
    p: "parse_lines iter_set lines g0 = Inr g" and
    z: "heap g0 = []" "filtered_groups g0 = []" "gene_threshold g0 = gt"
       "species_threshold g0 = st"
    by blast
  have step: "?I g2" if "?I g1" and "parse_line iter_set line g1 = Inr g2" for line g1 g2
  proof -
    from that have "gene_threshold g1 = None \<or> species_threshold g1 = None \<or>
                 gene_threshold g1 = Some 0 \<or> species_threshold g1 = Some 0" by simp
    from parse_line_not_filtering[OF this that(2)] that(1) show ?thesis by auto
  qed
  have "?I g0" using z off by simp
  then have "?I g"
    using p step parse_lines_invariant[where I = ?I and iter_set = iter_set and g = g0
      and lines = lines and g' = g]
    by blast
  then show ?thesis by simp
qed

lemma Group_tables:
  assumes c: "Group iter_set fs groups_file gt st project_prefix = Inr g"
  shows "\<forall>c \<in> set (heap g). distinct (map fst (species_frequency c))"
proof -
  let ?I = "\<lambda>g. \<forall>c \<in> set (heap g). distinct (map fst (species_frequency c))"
  from Group_start[OF c] obtain lines g0 where
    p: "parse_lines iter_set lines g0 = Inr g" and z: "heap g0 = []"
    by blast
  have step: "?I g2" if "?I g1" and "parse_line iter_set line g1 = Inr g2" for line g1 g2
    using parse_line_step[OF that(2)] that(1) by auto
  have "?I g0" using z by simp
  then show "?I g"
    using p step parse_lines_invariant[where I = ?I and iter_set = iter_set and g = g0
      and lines = lines and g' = g]
    by blast
qed

lemma accurate_complies:
  assumes d: "distinct (map fst (species_frequency c))" and a: "accurate_table c"
  shows "(stv \<le> int (length (species_frequency c)) \<and>
          (\<forall>v \<in> snd ` set (species_frequency c). v \<le> gtv)) = complies gtv stv c"
proof -
  have k: "set (map fst (species_frequency c)) = species_code ` set (sequences c)"
    and v: "\<forall>kv \<in> set (species_frequency c). snd kv = copies (sequences c) (fst kv)"
    using a by (simp_all add: accurate_table_def)
  have "card (set (map fst (species_frequency c))) = length (map fst (species_frequency c))"
    using d by (rule distinct_card)
  then have len: "length (species_frequency c) = card (species_code ` set (sequences c))"
    using k by simp
  have "(\<forall>x \<in> snd ` set (species_frequency c). x \<le> gtv) =
        (\<forall>sp \<in> species_code ` set (sequences c). copies (sequences c) sp \<le> gtv)"
  proof
    assume l: "\<forall>x \<in> snd ` set (species_frequency c). x \<le> gtv"
    show "\<forall>sp \<in> species_code ` set (sequences c). copies (sequences c) sp \<le> gtv"
    proof
      fix sp assume "sp \<in> species_code ` set (sequences c)"
      then have "sp \<in> set (map fst (species_frequency c))" using k by simp
      then obtain kv where kv: "kv \<in> set (species_frequency c)" "fst kv = sp" by auto
      then have "snd kv = copies (sequences c) sp" using v by auto
      moreover have "snd kv \<le> gtv" using l kv(1) by auto
      ultimately show "copies (sequences c) sp \<le> gtv" by simp
    qed
  next
    assume r: "\<forall>sp \<in> species_code ` set (sequences c). copies (sequences c) sp \<le> gtv"
    show "\<forall>x \<in> snd ` set (species_frequency c). x \<le> gtv"
    proof
      fix x assume "x \<in> snd ` set (species_frequency c)"
      then obtain kv where kv: "kv \<in> set (species_frequency c)" "x = snd kv" by auto
      then have "fst kv \<in> set (map fst (species_frequency c))" by simp
      then have "fst kv \<in> species_code ` set (sequences c)" using k by simp
      then have "copies (sequences c) (fst kv) \<le> gtv" using r by blast
      then show "x \<le> gtv" using v kv by simp
    qed
  qed
  then show ?thesis by (simp add: complies_def len)
qed

lemma update_filtered_group_exact:
  "filtered_groups (update_filtered_group g) = filter (\<lambda>a. both_compliant (heap g ! a)) (groups g) \<and>
   heap (update_filtered_group g) = heap g \<and> groups (update_filtered_group g) = groups g"
  by (simp add: update_filtered_group_def fold_filter)

lemma apply_filter_at_frame:
  "groups (snd (apply_filter_at gtv stv a g)) = groups g \<and>
   filtered_groups (snd (apply_filter_at gtv stv a g)) = filtered_groups g \<and>
   length (heap (snd (apply_filter_at gtv stv a g))) = length (heap g)"
  by (simp add: apply_filter_at_def split: prod.splits)

lemma reachable_groups:
  "reachable g \<Longrightarrow>
   groups g = [0..<length (heap g)] \<and> subseq (filtered_groups g) (groups g)"
proof (induction rule: reachable.induct)
  case (constructed iter_set fs groups_file gt st project_prefix g)
  from Group_exact[OF this] show ?case by (metis subseq_filter_left)
next
  case (filtered g a gt st)
  from filtered.IH show ?case by (auto simp: apply_filter_at_frame)
next
  case (updated g)
  have "subseq (filter (\<lambda>a. both_compliant (heap g ! a)) (groups g)) (groups g)"
    by (rule subseq_filter_left)
  with updated.IH show ?case by (auto simp: update_filtered_group_exact)
qed

section \<open>The example inputs, evaluated\<close>

lemma example_group_parsed:
  "Group first_seen example_fs ''groups.txt'' (Some 1) (Some 1) ''MyGroups'' = Inr example_group"
  by code_simp

lemma unfiltered_group_parsed:
  "Group first_seen example_fs ''groups.txt'' None None ''MyGroups'' = Inr unfiltered_group"
  by code_simp

lemma multigroups_parsed:
  "MultiGroups first_seen example_fs (Some [''groups.txt'', ''other.txt'']) None None ''MyGroups'' =
     Inr (example_multigroups [unfiltered_group, other_group])"
  by code_simp

section \<open>The claims\<close>

lemma parse_string_spec_example:
  "Cluster first_seen ''G1: sp1|a sp1|b sp2|c'' =
     Inr \<lparr> name = ''G1'', sequences = [''sp1|a'', ''sp1|b'', ''sp2|c''],
           species_frequency = [(''sp1'', 2), (''sp2'', 1)],
           gene_compliant = None, species_compliant = None \<rparr>"
  by code_simp

text \<open>
  C1. The species frequency of a parsed cluster is meant to map each species code to the
  number of sequence identifiers with that code. \<open>parse_string\<close> counts instead the
  occurrences of the code as a substring of the printed sequence list: in the line
  \<open>G1: sp1|a sp10|b\<close> one identifier has the species code \<open>sp1\<close>, and the frequency
  computed for \<open>sp1\<close> is 2.
\<close>

theorem parse_string_substring_count:
  "Cluster first_seen ''G1: sp1|a sp10|b'' =
     Inr \<lparr> name = ''G1'', sequences = [''sp1|a'', ''sp10|b''],
           species_frequency = [(''sp1'', 2), (''sp10'', 1)],
           gene_compliant = None, species_compliant = None \<rparr> \<and>
   int (length (filter (\<lambda>s. species_code s = ''sp1'') [''sp1|a'', ''sp10|b''])) = 1"
  by code_simp

lemma prefix_group_not_filtered:
  "Group first_seen prefix_fs ''prefix.txt'' (Some 1) (Some 2) ''MyGroups'' =
     Inr \<lparr> gene_threshold = Some 1, species_threshold = Some 2, group_name = ''prefix.txt'',
           prefix = ''MyGroups'',
           heap = [\<lparr> name = ''G1'', sequences = [''sp1|a'', ''sp10|b''],
                     species_frequency = [(''sp1'', 2), (''sp10'', 1)],
                     gene_compliant = Some False, species_compliant = Some True \<rparr>],
           groups = [0], filtered_groups = [], name_Group = ''prefix.txt'',
           species_list = [''sp1'', ''sp10''] \<rparr> \<and>
   complies 1 2 \<lparr> name = ''G1'', sequences = [''sp1|a'', ''sp10|b''],
                   species_frequency = [(''sp1'', 2), (''sp10'', 1)],
                   gene_compliant = Some False, species_compliant = Some True \<rparr> \<and>
   \<not> accurate_table \<lparr> name = ''G1'', sequences = [''sp1|a'', ''sp10|b''],
                        species_frequency = [(''sp1'', 2), (''sp10'', 1)],
                        gene_compliant = Some False, species_compliant = Some True \<rparr>"
  by code_simp

text \<open>
  C2 (as amended). A Group constructed with both thresholds supplied and different from
  0 has the filter applied to each of its clusters during parsing: \<open>species_compliant\<close>
  is set to whether the frequency table of the cluster has at least as many entries as
  the species threshold, \<open>gene_compliant\<close> to whether no entry of the table exceeds the
  gene threshold. \<open>filtered_groups\<close> holds exactly the clusters whose two flags are
  true, in encounter order; when the frequency table of every cluster is accurate (it
  holds the number of sequences of each species), these are exactly the clusters that
  comply with both thresholds. When a threshold is absent or is 0, no cluster's
  compliance flag is set and \<open>filtered_groups\<close> stays empty. What the flags are worth
  for a cluster whose table is not accurate (\<open>prefix_group_not_filtered\<close>, the defect
  of C1) is left open.
\<close>

theorem Group_eager_filter:
  assumes c: "Group iter_set fs groups_file gt st project_prefix = Inr g"
  shows "(gt = Some gtv \<and> st = Some stv \<and> gtv \<noteq> 0 \<and> stv \<noteq> 0 \<longrightarrow>
            (\<forall>a \<in> set (groups g).
               species_compliant (heap g ! a) =
                 Some (stv \<le> int (length (species_frequency (heap g ! a)))) \<and>
               gene_compliant (heap g ! a) =
                 Some (\<forall>v \<in> snd ` set (species_frequency (heap g ! a)). v \<le> gtv)) \<and>
            filtered_groups g = filter (\<lambda>a. both_compliant (heap g ! a)) (groups g) \<and>
            ((\<forall>a \<in> set (groups g). accurate_table (heap g ! a)) \<longrightarrow>
               filtered_groups g = filter (\<lambda>a. complies gtv stv (heap g ! a)) (groups g))) \<and>
         (gt = None \<or> st = None \<or> gt = Some 0 \<or> st = Some 0 \<longrightarrow>
            (\<forall>a \<in> set (groups g).
               species_compliant (heap g ! a) = None \<and> gene_compliant (heap g ! a) = None) \<and>
            filtered_groups g = [])"
proof (intro conjI impI)
  assume on: "gt = Some gtv \<and> st = Some stv \<and> gtv \<noteq> 0 \<and> stv \<noteq> 0"
  have ex: "groups g = [0..<length (heap g)]"
    "filtered_groups g = filter (\<lambda>a. both_compliant (heap g ! a)) (groups g)"
    using Group_exact[OF c] by simp_all
  have fl: "\<forall>c \<in> set (heap g).
           species_compliant c = Some (stv \<le> int (length (species_frequency c))) \<and>
           gene_compliant c = Some (\<forall>v \<in> snd ` set (species_frequency c). v \<le> gtv)"
    using Group_filtering[of iter_set fs groups_file gtv stv project_prefix g] c on by simp
  show flags: "\<forall>a \<in> set (groups g).
               species_compliant (heap g ! a) =
                 Some (stv \<le> int (length (species_frequency (heap g ! a)))) \<and>
               gene_compliant (heap g ! a) =
                 Some (\<forall>v \<in> snd ` set (species_frequency (heap g ! a)). v \<le> gtv)"
    using fl ex(1) by simp
  show "filtered_groups g = filter (\<lambda>a. both_compliant (heap g ! a)) (groups g)"
    by (rule ex(2))
  assume acc: "\<forall>a \<in> set (groups g). accurate_table (heap g ! a)"
  have "filter (\<lambda>a. both_compliant (heap g ! a)) (groups g) =
        filter (\<lambda>a. complies gtv stv (heap g ! a)) (groups g)"
  proof (rule filter_cong)
    fix a assume a: "a \<in> set (groups g)"
    then have "heap g ! a \<in> set (heap g)" using ex(1) by simp
    then have "distinct (map fst (species_frequency (heap g ! a)))"
      using Group_tables[OF c] by blast
    from accurate_complies[OF this, of stv gtv] acc a
    have "complies gtv stv (heap g ! a) =
            (stv \<le> int (length (species_frequency (heap g ! a))) \<and>
             (\<forall>v \<in> snd ` set (species_frequency (heap g ! a)). v \<le> gtv))"
      by blast
    with flags a show "both_compliant (heap g ! a) = complies gtv stv (heap g ! a)"
      by (simp add: both_compliant_def)
  qed simp
  with ex(2) show "filtered_groups g = filter (\<lambda>a. complies gtv stv (heap g ! a)) (groups g)"
    by simp
next
  assume off: "gt = None \<or> st = None \<or> gt = Some 0 \<or> st = Some 0"
  have ex: "groups g = [0..<length (heap g)]" using Group_exact[OF c] by simp
  from Group_not_filtering[OF c off]
  show "\<forall>a \<in> set (groups g).
               species_compliant (heap g ! a) = None \<and> gene_compliant (heap g ! a) = None"
    and "filtered_groups g = []"
    using ex by simp_all
qed

theorem Group_eager_filter_witness:
  "Group first_seen example_fs ''groups.txt'' (Some 1) (Some 1) ''MyGroups'' = Inr example_group \<and>
   groups example_group = [0, 1] \<and>
   accurate_table (heap example_group ! 0) \<and> accurate_table (heap example_group ! 1) \<and>
   filtered_groups example_group = [1] \<and>
   filter (\<lambda>a. both_compliant (heap example_group ! a)) (groups example_group) = [1] \<and>
   filter (\<lambda>a. complies 1 1 (heap example_group ! a)) (groups example_group) = [1] \<and>
   Group first_seen example_fs ''groups.txt'' None (Some 1) ''MyGroups'' =
     Inr (unfiltered_group\<lparr>species_threshold := Some 1\<rparr>) \<and>
   filtered_groups (unfiltered_group\<lparr>species_threshold := Some 1\<rparr>) = [] \<and>
   Group first_seen example_fs ''groups.txt'' (Some 1) (Some 0) ''MyGroups'' =
     Inr (unfiltered_group\<lparr>gene_threshold := Some 1, species_threshold := Some 0\<rparr>) \<and>
   filtered_groups (unfiltered_group\<lparr>gene_threshold := Some 1, species_threshold := Some 0\<rparr>)
     = []"
proof -
  have p: "Group first_seen example_fs ''groups.txt'' (Some 1) (Some 1) ''MyGroups'' =
     Inr example_group"
    by code_simp
  have q: "Group first_seen example_fs ''groups.txt'' None (Some 1) ''MyGroups'' =
     Inr (unfiltered_group\<lparr>species_threshold := Some 1\<rparr>)"
    by code_simp
  have z: "Group first_seen example_fs ''groups.txt'' (Some 1) (Some 0) ''MyGroups'' =
     Inr (unfiltered_group\<lparr>gene_threshold := Some 1, species_threshold := Some 0\<rparr>)"
    by code_simp
  have acc: "\<forall>a \<in> set (groups example_group). accurate_table (heap example_group ! a)"
    by code_simp
  have b: "filter (\<lambda>a. both_compliant (heap example_group ! a)) (groups example_group) = [1]"
    by code_simp
  have c: "filter (\<lambda>a. complies 1 1 (heap example_group ! a)) (groups example_group) = [1]"
    by code_simp
  have on: "Some (1::int) = Some 1 \<and> Some (1::int) = Some 1 \<and> (1::int) \<noteq> 0 \<and> (1::int) \<noteq> 0"
    by simp
  have 1: "filtered_groups example_group =
             filter (\<lambda>a. complies 1 1 (heap example_group ! a)) (groups example_group)"
    using Group_eager_filter [OF p, of 1 1, THEN conjunct1, THEN mp, OF on,
        THEN conjunct2, THEN conjunct2, THEN mp, OF acc] .
  have 2: "filtered_groups (unfiltered_group\<lparr>species_threshold := Some 1\<rparr>) = []"
    using Group_eager_filter [OF q, of 1 1] by simp
  have 3: "filtered_groups
             (unfiltered_group\<lparr>gene_threshold := Some 1, species_threshold := Some 0\<rparr>) = []"
    using Group_eager_filter [OF z, of 1 0] by simp
  from 1 have 4: "filtered_groups example_group = [1]" by (simp only: c)
  have t: "groups example_group = [0, 1] \<and>
           accurate_table (heap example_group ! 0) \<and> accurate_table (heap example_group ! 1)"
    by code_simp
  from p q z t b c 2 3 4 show ?thesis by blast
qed

text \<open>
  The claim as stated fails for a threshold 0: with the gene threshold 1 and the species
  threshold 0 the cluster \<open>G2\<close>, whose table is accurate, complies with both thresholds,
  yet its flags stay unset and \<open>filtered_groups\<close> is empty.
\<close>

theorem zero_threshold_not_filtered:
  "Group first_seen example_fs ''groups.txt'' (Some 1) (Some 0) ''MyGroups'' =
     Inr (unfiltered_group\<lparr>gene_threshold := Some 1, species_threshold := Some 0\<rparr>) \<and>
   accurate_table (heap unfiltered_group ! 1) \<and>
   complies 1 0 (heap unfiltered_group ! 1) \<and>
   species_compliant (heap unfiltered_group ! 1) = None \<and>
   gene_compliant (heap unfiltered_group ! 1) = None \<and>
   filtered_groups (unfiltered_group\<lparr>gene_threshold := Some 1, species_threshold := Some 0\<rparr>) = []"
  by code_simp

text \<open>
  C3 (as amended). \<open>group_overlap\<close> fails with SystemExit whenever the MultiGroups does
  not hold exactly two Groups. On two Groups it prints one integer and returns no value
  (\<open>None\<close>): the integer printed is the number of clusters of the first Group whose set
  of sequence identifiers equals the set of sequence identifiers of some cluster of the
  second Group; on two Groups with the same clusters it is the number of clusters of
  either.
\<close>

theorem group_overlap_spec:
  "(length (multiple_groups mg) \<noteq> 2 \<longrightarrow> group_overlap mg = (Inl SystemExit, [])) \<and>
   (multiple_groups mg = [g1, g2] \<longrightarrow>
      group_overlap mg =
        (Inr PyNone,
         [int (length (filter
                (\<lambda>a. \<exists>b \<in> set (groups g2).
                       set (sequences (heap g1 ! a)) = set (sequences (heap g2 ! b)))
                (groups g1)))])) \<and>
   (multiple_groups mg = [g1, g2] \<and>
    map (\<lambda>a. heap g1 ! a) (groups g1) = map (\<lambda>a. heap g2 ! a) (groups g2) \<longrightarrow>
      group_overlap mg = (Inr PyNone, [int (length (groups g1))]))"
proof (intro conjI impI)
  assume "length (multiple_groups mg) \<noteq> 2"
  then show "group_overlap mg = (Inl SystemExit, [])" by (simp add: group_overlap_def)
next
  assume "multiple_groups mg = [g1, g2]"
  then show "group_overlap mg =
        (Inr PyNone,
         [int (length (filter
                (\<lambda>a. \<exists>b \<in> set (groups g2).
                       set (sequences (heap g1 ! a)) = set (sequences (heap g2 ! b)))
                (groups g1)))])"
    by (simp add: group_overlap_two parse_groups'_map filter_map comp_def image_iff)
next
  assume a: "multiple_groups mg = [g1, g2] \<and>
    map (\<lambda>a. heap g1 ! a) (groups g1) = map (\<lambda>a. heap g2 ! a) (groups g2)"
  then have "map (\<lambda>c. set (sequences c)) (map (\<lambda>a. heap g1 ! a) (groups g1)) =
             map (\<lambda>c. set (sequences c)) (map (\<lambda>a. heap g2 ! a) (groups g2))"
    by simp
  then have "parse_groups' g1 = parse_groups' g2"
    by (simp add: parse_groups'_map comp_def)
  then have "filter (\<lambda>i. i \<in> set (parse_groups' g2)) (parse_groups' g1) = parse_groups' g1"
    by simp
  then show "group_overlap mg = (Inr PyNone, [int (length (groups g1))])"
    using a by (simp add: group_overlap_two) (simp add: parse_groups'_map)
qed

theorem group_overlap_spec_witness:
  "length (multiple_groups (example_multigroups [unfiltered_group])) \<noteq> 2 \<and>
   group_overlap (example_multigroups [unfiltered_group]) = (Inl SystemExit, []) \<and>
   group_overlap (example_multigroups [unfiltered_group, unfiltered_group]) =
     (Inr PyNone, [2]) \<and>
   group_overlap (example_multigroups [unfiltered_group, other_group]) = (Inr PyNone, [1])"
proof -
  have a: "length (multiple_groups (example_multigroups [unfiltered_group])) \<noteq> 2"
    by (simp add: example_multigroups_def)
  have b: "multiple_groups (example_multigroups [unfiltered_group, unfiltered_group]) =
             [unfiltered_group, unfiltered_group]"
    by (simp add: example_multigroups_def)
  have c: "multiple_groups (example_multigroups [unfiltered_group, other_group]) =
             [unfiltered_group, other_group]"
    by (simp add: example_multigroups_def)
  have d: "int (length (filter
               (\<lambda>a. \<exists>b \<in> set (groups other_group).
                      set (sequences (heap unfiltered_group ! a)) =
                      set (sequences (heap other_group ! b)))
               (groups unfiltered_group))) = 1"
    by code_simp
  have e: "int (length (groups unfiltered_group)) = 2" by (simp add: unfiltered_group_def)
  have 1: "group_overlap (example_multigroups [unfiltered_group]) = (Inl SystemExit, [])"
    using a
      group_overlap_spec [of "example_multigroups [unfiltered_group]" unfiltered_group
        unfiltered_group]
    by blast
  have 2: "group_overlap (example_multigroups [unfiltered_group, unfiltered_group]) =
             (Inr PyNone, [int (length (groups unfiltered_group))])"
    using b
      group_overlap_spec [of "example_multigroups [unfiltered_group, unfiltered_group]"
        unfiltered_group unfiltered_group]
    by blast
  have 3: "group_overlap (example_multigroups [unfiltered_group, other_group]) =
             (Inr PyNone,
              [int (length (filter
               (\<lambda>a. \<exists>b \<in> set (groups other_group).
                      set (sequences (heap unfiltered_group ! a)) =
                      set (sequences (heap other_group ! b)))
               (groups unfiltered_group)))])"
    using c
      group_overlap_spec [of "example_multigroups [unfiltered_group, other_group]"
        unfiltered_group other_group]
    by blast
  from 2 have 4: "group_overlap (example_multigroups [unfiltered_group, unfiltered_group]) =
                    (Inr PyNone, [2])"
    by (simp only: e)
  from 3 have 5: "group_overlap (example_multigroups [unfiltered_group, other_group]) =
                    (Inr PyNone, [1])"
    by (simp only: d)
  from a 1 4 5 show ?thesis by blast
qed

text \<open>
  The claim as stated fails: on the MultiGroups that holds the Group of \<open>groups.txt\<close>
  twice, \<open>group_overlap\<close> returns \<open>None\<close>, not the integer 2, the cluster count of
  the Group; it prints 2.
\<close>

theorem group_overlap_returns_None:
  "multiple_groups (example_multigroups [unfiltered_group, unfiltered_group]) =
     [unfiltered_group, unfiltered_group] \<and>
   int (length (groups unfiltered_group)) = 2 \<and>
   fst (group_overlap (example_multigroups [unfiltered_group, unfiltered_group])) = Inr PyNone \<and>
   fst (group_overlap (example_multigroups [unfiltered_group, unfiltered_group])) \<noteq>
     Inr (PyInt 2) \<and>
   snd (group_overlap (example_multigroups [unfiltered_group, unfiltered_group])) = [2]"
  by code_simp

text \<open>
  C4. \<open>paralog_per_species_statistic\<close> is meant to count, for each species of the
  species list, the clusters in which the species has more than one sequence. It looks
  the species up in every cluster's frequency table, so a cluster without one of the
  species raises KeyError: the Group of the two lines \<open>G1: sp1|a sp1|b\<close> and
  \<open>G2: sp2|c\<close> has the species list \<open>sp1, sp2\<close>, and the statistic over all its
  clusters fails.
\<close>

theorem paralog_key_error:
  "Group first_seen example_fs ''groups.txt'' None None ''MyGroups'' = Inr unfiltered_group \<and>
   species_list unfiltered_group = [''sp1'', ''sp2''] \<and>
   map_of (species_frequency (heap unfiltered_group ! 0)) ''sp2'' = None \<and>
   paralog_per_species_statistic False unfiltered_group = Inl KeyError"
  by code_simp

text \<open>
  C5 (as amended). Cluster parsing fails for every line that contains no colon (with
  IndexError, the only error parsing raises), and for no other line: a line with a colon
  is accepted whatever its name portion is, and the name is the text before the first
  colon, trimmed.
\<close>

theorem parse_string_errors:
  "(CHR '':'' \<notin> set line \<longrightarrow> Cluster iter_set line = Inl IndexError) \<and>
   (CHR '':'' \<in> set line \<longrightarrow>
      (\<exists>c. Cluster iter_set line = Inr c \<and>
           name c = strip (takeWhile (\<lambda>ch. ch \<noteq> CHR '':'') line)))"
proof (cases "CHR '':'' \<in> set line")
  case True
  then have "\<not> length (split_char CHR '':'' line) < 2" by (simp add: length_split_char)
  moreover have "split_char CHR '':'' line ! 0 = takeWhile (\<lambda>ch. ch \<noteq> CHR '':'') line"
    using hd_split_char[of "CHR '':''" line] split_char_not_Nil[of "CHR '':''" line]
    by (simp add: hd_conv_nth)
  ultimately show ?thesis using True
    by (simp add: Cluster_def parse_string_def Let_def)
next
  case False
  then have "length (split_char CHR '':'' line) < 2" by (simp add: length_split_char)
  then show ?thesis using False by (simp add: Cluster_def parse_string_def Let_def)
qed

theorem parse_string_errors_witness:
  "CHR '':'' \<notin> set ''G1 sp1|a'' \<and> Cluster first_seen ''G1 sp1|a'' = Inl IndexError \<and>
   CHR '':'' \<in> set '': sp1|a'' \<and>
   (\<exists>c. Cluster first_seen '': sp1|a'' = Inr c \<and> name c = [])"
  using parse_string_errors [of "''G1 sp1|a''" first_seen]
        parse_string_errors [of "'': sp1|a''" first_seen]
  by (simp add: strip_def)

text \<open>
  The claim as stated fails: the name portion of the line \<open>: sp1|a\<close> is empty, and the
  line is parsed without an error, into a cluster with the empty name.
\<close>

theorem empty_name_accepted:
  "strip (takeWhile (\<lambda>ch. ch \<noteq> CHR '':'') '': sp1|a'') = [] \<and>
   Cluster first_seen '': sp1|a'' =
     Inr \<lparr> name = [], sequences = [''sp1|a''], species_frequency = [(''sp1'', 1)],
           gene_compliant = None, species_compliant = None \<rparr>"
  by code_simp

text \<open>
  C6. \<open>export_filtered_group\<close> fails with OrthoGroupException exactly when
  \<open>filtered_groups\<close> is empty. Otherwise it writes, for each cluster of
  \<open>filtered_groups\<close> whose two flags are true and in the order of \<open>filtered_groups\<close>,
  one line made of the name, a colon and a space, and the sequence identifiers joined by
  spaces. In both cases the Group is left as it was.
\<close>

theorem export_filtered_group_spec:
  "(fst (export_filtered_group get_stats g) = Inl OrthoGroupException) = (filtered_groups g = []) \<and>
   (filtered_groups g \<noteq> [] \<longrightarrow>
      (\<exists>stats. fst (export_filtered_group get_stats g) =
         Inr (map (\<lambda>c. name c @ '': '' @ join '' '' (sequences c) @ [CHR 0x0A])
                (filter both_compliant (map (\<lambda>a. heap g ! a) (filtered_groups g))),
              stats))) \<and>
   snd (export_filtered_group get_stats g) = g"
  by (simp add: export_filtered_group_def export_fold export_line_def)

theorem export_filtered_group_spec_witness:
  "filtered_groups example_group \<noteq> [] \<and>
   export_filtered_group True example_group =
     (Inr ([''G2: sp2|c'' @ [CHR 0x0A]], Some (2, 1, 1, 1)), example_group) \<and>
   filtered_groups unfiltered_group = [] \<and>
   export_filtered_group True unfiltered_group = (Inl OrthoGroupException, unfiltered_group)"
proof -
  have "export_filtered_group True example_group =
     (Inr ([''G2: sp2|c'' @ [CHR 0x0A]], Some (2, 1, 1, 1)), example_group)"
    by code_simp
  moreover have "filtered_groups example_group \<noteq> []" "filtered_groups unfiltered_group = []"
    by (simp_all add: example_group_def unfiltered_group_def)
  ultimately show ?thesis
    using export_filtered_group_spec [of True unfiltered_group]
          export_filtered_group_spec [of True example_group]
    by (simp add: prod_eq_iff)
qed

text \<open>
  C7 (as amended). After any sequence of the operations (construction with or without
  thresholds, \<open>apply_filter\<close> on clusters of the Group, \<open>update_filtered_group\<close>),
  \<open>filtered_groups\<close> is a subsequence of \<open>groups\<close>, in the same relative order, and
  \<open>groups\<close> has no repetition. \<open>filtered_groups\<close> holds exactly the clusters whose two
  flags are true directly after the construction and directly after
  \<open>update_filtered_group\<close>.
\<close>

theorem filtered_groups_subsequence:
  "(reachable g \<longrightarrow>
      subseq (filtered_groups g) (groups g) \<and> distinct (groups g) \<and>
      filtered_groups (update_filtered_group g) =
        filter (\<lambda>a. both_compliant (heap (update_filtered_group g) ! a))
          (groups (update_filtered_group g))) \<and>
   (Group iter_set fs groups_file gt st project_prefix = Inr g \<longrightarrow>
      filtered_groups g = filter (\<lambda>a. both_compliant (heap g ! a)) (groups g))"
proof (intro conjI impI)
  assume r: "reachable g"
  from reachable_groups[OF r] show "subseq (filtered_groups g) (groups g)" by blast
  from reachable_groups[OF r] have "groups g = [0..<length (heap g)]" by blast
  then show "distinct (groups g)" by (metis distinct_upt)
  show "filtered_groups (update_filtered_group g) =
        filter (\<lambda>a. both_compliant (heap (update_filtered_group g) ! a))
          (groups (update_filtered_group g))"
    by (simp only: update_filtered_group_exact)
next
  assume "Group iter_set fs groups_file gt st project_prefix = Inr g"
  from Group_exact[OF this]
  show "filtered_groups g = filter (\<lambda>a. both_compliant (heap g ! a)) (groups g)" by blast
qed

theorem filtered_groups_subsequence_witness:
  "reachable (snd (apply_filter_at 1 1 1 unfiltered_group)) \<and>
   subseq (filtered_groups (snd (apply_filter_at 1 1 1 unfiltered_group)))
     (groups (snd (apply_filter_at 1 1 1 unfiltered_group))) \<and>
   filtered_groups (update_filtered_group (snd (apply_filter_at 1 1 1 unfiltered_group))) = [1] \<and>
   Group first_seen example_fs ''groups.txt'' (Some 1) (Some 1) ''MyGroups'' = Inr example_group \<and>
   filtered_groups example_group = [1]"
proof -
  let ?g = "snd (apply_filter_at 1 1 1 unfiltered_group)"
  have "reachable unfiltered_group"
    using unfiltered_group_parsed by (rule reachable.constructed)
  moreover have "1 \<in> set (groups unfiltered_group)" by code_simp
  ultimately have r: "reachable ?g"
    by (rule reachable.filtered)
  have p: "Group first_seen example_fs ''groups.txt'' (Some 1) (Some 1) ''MyGroups'' = Inr example_group"
    by code_simp
  have u: "filter (\<lambda>a. both_compliant (heap (update_filtered_group ?g) ! a))
            (groups (update_filtered_group ?g)) = [1]"
    by code_simp
  have f: "filter (\<lambda>a. both_compliant (heap example_group ! a)) (groups example_group) = [1]"
    by code_simp
  have 1: "subseq (filtered_groups ?g) (groups ?g) \<and>
           filtered_groups (update_filtered_group ?g) =
             filter (\<lambda>a. both_compliant (heap (update_filtered_group ?g) ! a))
               (groups (update_filtered_group ?g))"
    using r filtered_groups_subsequence [of ?g first_seen example_fs "''groups.txt''" "Some 1"
        "Some 1" "''MyGroups''"]
    by blast
  have 2: "filtered_groups example_group =
             filter (\<lambda>a. both_compliant (heap example_group ! a)) (groups example_group)"
    using p filtered_groups_subsequence [of example_group first_seen example_fs "''groups.txt''"
        "Some 1" "Some 1" "''MyGroups''"]
    by blast
  from 1 have 3: "filtered_groups (update_filtered_group ?g) = [1]" by (simp only: u)
  from 2 have 4: "filtered_groups example_group = [1]" by (simp only: f)
  from r p 1 3 4 show ?thesis by blast
qed

text \<open>
  The claim as stated fails: \<open>apply_filter\<close> called on a cluster of a Group constructed
  without thresholds sets both flags of the cluster to true and leaves \<open>filtered_groups\<close>
  empty.
\<close>

theorem late_filter_not_in_filtered_groups:
  "reachable (snd (apply_filter_at 1 1 1 unfiltered_group)) \<and>
   1 \<in> set (groups (snd (apply_filter_at 1 1 1 unfiltered_group))) \<and>
   both_compliant (heap (snd (apply_filter_at 1 1 1 unfiltered_group)) ! 1) \<and>
   filtered_groups (snd (apply_filter_at 1 1 1 unfiltered_group)) = []"
proof -
  have "reachable unfiltered_group"
    using unfiltered_group_parsed by (rule reachable.constructed)
  moreover have "1 \<in> set (groups unfiltered_group)" by code_simp
  ultimately have r: "reachable (snd (apply_filter_at 1 1 1 unfiltered_group))"
    by (rule reachable.filtered)
  have v: "1 \<in> set (groups (snd (apply_filter_at 1 1 1 unfiltered_group))) \<and>
   both_compliant (heap (snd (apply_filter_at 1 1 1 unfiltered_group)) ! 1) \<and>
   filtered_groups (snd (apply_filter_at 1 1 1 unfiltered_group)) = []"
    by code_simp
  from r v show ?thesis by blast
qed

text \<open>
  C8. A line with more than one colon, \<open>a:b:rest\<close> with no colon in \<open>a\<close> and \<open>b\<close>, is
  parsed without an error; the sequences are the whitespace-delimited tokens of \<open>b\<close>,
  and the cluster is the one parsed from \<open>a:b\<close>: the text after the second colon is
  discarded.
\<close>

theorem parse_string_two_colons:
  "CHR '':'' \<notin> set a \<Longrightarrow> CHR '':'' \<notin> set b \<Longrightarrow>
   (\<exists>c. Cluster iter_set (a @ '':'' @ b @ '':'' @ rest) = Inr c \<and>
        name c = strip a \<and> sequences c = split_ws b) \<and>
   Cluster iter_set (a @ '':'' @ b @ '':'' @ rest) = Cluster iter_set (a @ '':'' @ b)"
  using split_char_not_Nil[of "CHR '':''" rest]
  by (cases "split_char CHR '':'' rest")
     (simp_all add: Cluster_def parse_string_def split_char_sep split_char_no_sep Let_def
        split_ws_strip)

theorem parse_string_two_colons_witness:
  "CHR '':'' \<notin> set ''G1'' \<and> CHR '':'' \<notin> set '' sp1|a sp2|b '' \<and>
   Cluster first_seen ''G1: sp1|a sp2|b : sp3|c: x'' = Cluster first_seen ''G1: sp1|a sp2|b '' \<and>
   Cluster first_seen ''G1: sp1|a sp2|b : sp3|c: x'' =
     Inr \<lparr> name = ''G1'', sequences = [''sp1|a'', ''sp2|b''],
           species_frequency = [(''sp1'', 1), (''sp2'', 1)],
           gene_compliant = None, species_compliant = None \<rparr>"
proof -
  have a: "CHR '':'' \<notin> set ''G1''" by simp
  have b: "CHR '':'' \<notin> set '' sp1|a sp2|b ''" by simp
  have "Cluster first_seen ''G1: sp1|a sp2|b '' =
     Inr \<lparr> name = ''G1'', sequences = [''sp1|a'', ''sp2|b''],
           species_frequency = [(''sp1'', 1), (''sp2'', 1)],
           gene_compliant = None, species_compliant = None \<rparr>"
    by code_simp
  then show ?thesis
    using a b parse_string_two_colons [OF a b, of first_seen "'' sp3|c: x''"] by simp
qed

text \<open>
  C9. On a cluster whose species frequency is empty, \<open>apply_filter\<close> with the species
  threshold 0 raises ValueError (the maximum of an empty collection) and leaves the
  cluster changed: \<open>species_compliant\<close> is set to true, \<open>gene_compliant\<close> is as it
  was (unset for a cluster just parsed).
\<close>

theorem apply_filter_empty_not_atomic:
  "species_frequency c = [] \<Longrightarrow>
   apply_filter gt 0 c = (Inl ValueError, c\<lparr>species_compliant := Some True\<rparr>) \<and>
   species_compliant (snd (apply_filter gt 0 c)) = Some True \<and>
   gene_compliant (snd (apply_filter gt 0 c)) = gene_compliant c"
  by (simp add: apply_filter_def)

theorem apply_filter_empty_not_atomic_witness:
  "Cluster first_seen ''G1:'' =
     Inr \<lparr> name = ''G1'', sequences = [], species_frequency = [],
           gene_compliant = None, species_compliant = None \<rparr> \<and>
   apply_filter 1 0 \<lparr> name = ''G1'', sequences = [], species_frequency = [],
                      gene_compliant = None, species_compliant = None \<rparr> =
     (Inl ValueError, \<lparr> name = ''G1'', sequences = [], species_frequency = [],
                        gene_compliant = None, species_compliant = Some True \<rparr>)"
proof -
  have p: "Cluster first_seen ''G1:'' =
     Inr \<lparr> name = ''G1'', sequences = [], species_frequency = [],
           gene_compliant = None, species_compliant = None \<rparr>"
    by code_simp
  have e: "species_frequency \<lparr> name = ''G1'', sequences = [], species_frequency = [],
             gene_compliant = None, species_compliant = None \<rparr> = []"
    by simp
  show ?thesis using p apply_filter_empty_not_atomic [OF e, of 1] by simp
qed

text \<open>
  C10. On a Group whose \<open>filtered_groups\<close> is empty, \<open>retrieve_fasta\<close> with the filtered
  clusters selected and a dictionary as database returns without an error and opens no
  file (it prints the empty list); \<open>export_filtered_group\<close> on the same Group raises
  OrthoGroupException.
\<close>

theorem retrieve_fasta_unfiltered:
  "filtered_groups g = [] \<Longrightarrow>
   retrieve_fasta alignment (DbDict d) True g = (Inr (), \<lparr> printed = [[]], files = [] \<rparr>) \<and>
   fst (export_filtered_group get_stats g) = Inl OrthoGroupException"
  by (simp add: retrieve_fasta_def export_filtered_group_def)

theorem retrieve_fasta_unfiltered_witness:
  "filtered_groups unfiltered_group = [] \<and>
   retrieve_fasta (\<lambda>path. Inl IOError) (DbDict [(''sp1|a'', ''ACGT'')]) True unfiltered_group =
     (Inr (), \<lparr> printed = [[]], files = [] \<rparr>) \<and>
   fst (export_filtered_group False unfiltered_group) = Inl OrthoGroupException"
proof -
  have e: "filtered_groups unfiltered_group = []" by (simp add: unfiltered_group_def)
  show ?thesis
    using e retrieve_fasta_unfiltered [OF e, of "\<lambda>path. Inl IOError" "[(''sp1|a'', ''ACGT'')]" False]
    by simp
qed

end
